theory Spec2Isabelle
  imports Complex_Main "HOL-Library.AList"
begin

section \<open>Python values used by the program\<close>

text \<open>
  The exceptions that the modelled code can raise.  \<open>ValueError\<close> is what \<^verbatim>\<open>float(...)\<close>
  raises on a malformed string, \<open>IndexError\<close> what pandas raises for position 0 of an
  empty axis, \<open>WorksheetNotFound\<close> what gspread raises for an unknown worksheet title,
  \<open>APIError\<close> what it raises for a cell address the service rejects.
\<close>

datatype py_error = ValueError | TypeError | IndexError | KeyError | WorksheetNotFound | APIError

subsection \<open>Floats\<close>

text \<open>
  A Python \<^verbatim>\<open>float\<close> is an IEEE 754 binary64 value.  \<open>Finite q\<close> carries the exact
  rational value of a finite float (\<open>Finite 0\<close> is \<^verbatim>\<open>0.0\<close>), \<open>NegZero\<close> is \<^verbatim>\<open>-0.0\<close>.
\<close>

datatype pyfloat = Finite rat | NegZero | PosInf | NegInf | NaN

text \<open>The number of binary digits of a positive integer (\<^verbatim>\<open>int.bit_length\<close>).\<close>

function bit_length :: "int \<Rightarrow> int" where
  "bit_length n = (if n \<le> 0 then 0 else 1 + bit_length (n div 2))"
  by pat_completeness auto
termination
  by (relation "measure nat") auto

declare bit_length.simps [simp del]

definition pow2 :: "int \<Rightarrow> rat" where
  "pow2 e = (if 0 \<le> e then of_int (2 ^ nat e) else 1 / of_int (2 ^ nat (- e)))"

definition pow10 :: "int \<Rightarrow> rat" where
  "pow10 e = (if 0 \<le> e then of_int (10 ^ nat e) else 1 / of_int (10 ^ nat (- e)))"

text \<open>\<open>ilog2 a\<close> is the exponent \<open>e\<close> with \<open>2^e \<le> a < 2^(e+1)\<close>, for \<open>a > 0\<close>.\<close>

definition ilog2 :: "rat \<Rightarrow> int" where
  "ilog2 a =
     (let (n, d) = quotient_of a;
          k = bit_length n - bit_length d
      in if pow2 k \<le> a then k else k - 1)"

text \<open>Rounding to the nearest integer, ties to the even one.\<close>

definition round_half_even :: "rat \<Rightarrow> int" where
  "round_half_even x =
     (let f = \<lfloor>x\<rfloor>; r = x - of_int f
      in if r < 1 / 2 then f
         else if 1 / 2 < r then f + 1
         else if even f then f else f + 1)"

text \<open>
  \<open>to_double q\<close> is the binary64 value nearest to the exact number \<open>q\<close> (round to nearest,
  ties to even): 53 significant bits, least exponent \<open>-1074\<close>, overflow to an infinity,
  underflow to a signed zero.
\<close>

definition to_double :: "rat \<Rightarrow> pyfloat" where
  "to_double q =
     (if q = 0 then Finite 0
      else
        let a = \<bar>q\<bar>;
            p = max (ilog2 a - 52) (- 1074);
            r = of_int (round_half_even (a / pow2 p)) * pow2 p
        in if pow2 1024 \<le> r then (if q < 0 then NegInf else PosInf)
           else if r = 0 then (if q < 0 then NegZero else Finite 0)
           else Finite (if q < 0 then - r else r))"


definition signed_double :: "bool \<Rightarrow> rat \<Rightarrow> pyfloat" where
  "signed_double neg v =
     (if v = 0 then (if neg then NegZero else Finite 0)
      else to_double (if neg then - v else v))"

text \<open>Float subtraction \<^verbatim>\<open>x - y\<close>; it never raises.\<close>

fun fsub :: "pyfloat \<Rightarrow> pyfloat \<Rightarrow> pyfloat" where
  "fsub NaN y = NaN"
| "fsub x NaN = NaN"
| "fsub PosInf PosInf = NaN"
| "fsub NegInf NegInf = NaN"
| "fsub PosInf y = PosInf"
| "fsub NegInf y = NegInf"
| "fsub x PosInf = NegInf"
| "fsub x NegInf = PosInf"
| "fsub NegZero NegZero = Finite 0"
| "fsub NegZero (Finite y) = (if y = 0 then NegZero else to_double (- y))"
| "fsub (Finite x) NegZero = to_double x"
| "fsub (Finite x) (Finite y) = to_double (x - y)"

subsection \<open>\<^verbatim>\<open>float(s)\<close> for a string\<close>

text \<open>
  A \<^verbatim>\<open>str\<close> is modelled by its UTF-8 bytes.  \<^verbatim>\<open>float\<close> accepts surrounding ASCII
  whitespace, an optional sign, decimal digits with an optional point and exponent,
  underscores between digits, and the words \<^verbatim>\<open>inf\<close>, \<^verbatim>\<open>infinity\<close>, \<^verbatim>\<open>nan\<close> in any
  letter case.  Digits and spaces outside ASCII, which CPython also accepts, are not
  modelled: here every byte above 127 makes the string malformed.
\<close>

definition is_digit :: "char \<Rightarrow> bool" where
  "is_digit c = (48 \<le> (of_char c :: int) \<and> (of_char c :: int) \<le> 57)"

definition digit_val :: "char \<Rightarrow> int" where
  "digit_val c = of_char c - 48"

definition is_space :: "char \<Rightarrow> bool" where
  "is_space c = ((of_char c :: int) \<in> {9, 10, 11, 12, 13, 32})"

definition to_lower :: "char \<Rightarrow> char" where
  "to_lower c =
     (if 65 \<le> (of_char c :: int) \<and> (of_char c :: int) \<le> 90
      then char_of ((of_char c :: int) + 32) else c)"

definition digits_value :: "string \<Rightarrow> int" where
  "digits_value ds = foldl (\<lambda>acc c. 10 * acc + digit_val c) 0 ds"

text \<open>Underscores are legal only between two digits; they are removed before parsing.\<close>

fun underscores_ok :: "char \<Rightarrow> string \<Rightarrow> bool" where
  "underscores_ok prev [] = (prev \<noteq> CHR ''_'')"
| "underscores_ok prev (c # cs) =
     ((if c = CHR ''_'' then is_digit prev
       else (prev = CHR ''_'' \<longrightarrow> is_digit c)) \<and> underscores_ok c cs)"

fun strip_sign :: "string \<Rightarrow> bool \<times> string" where
  "strip_sign [] = (False, [])"
| "strip_sign (c # cs) =
     (if c = CHR ''-'' then (True, cs)
      else if c = CHR ''+'' then (False, cs)
      else (False, c # cs))"

definition parse_exponent :: "string \<Rightarrow> int \<times> string" where
  "parse_exponent s =
     (case s of
        [] \<Rightarrow> (0, s)
      | c # cs \<Rightarrow>
          if c = CHR ''e'' \<or> c = CHR ''E'' then
            (let (neg, t) = strip_sign cs;
                 ds = takeWhile is_digit t
             in if ds = [] then (0, s)
                else ((if neg then - digits_value ds else digits_value ds),
                      dropWhile is_digit t))
          else (0, s))"

text \<open>
  The decimal number at the start of a string: sign, exact magnitude, and the unread
  rest; \<open>None\<close> when there is no digit.
\<close>

definition strtod :: "string \<Rightarrow> (bool \<times> rat \<times> string) option" where
  "strtod s =
     (let (neg, s1) = strip_sign s;
          ip = takeWhile is_digit s1;
          s2 = dropWhile is_digit s1;
          (fp, s3) = (case s2 of
                        [] \<Rightarrow> ([], s2)
                      | c # cs \<Rightarrow>
                          if c = CHR ''.'' then (takeWhile is_digit cs, dropWhile is_digit cs)
                          else ([], s2))
      in if ip = [] \<and> fp = [] then None
         else
           let (ex, s4) = parse_exponent s3
           in Some (neg, of_int (digits_value (ip @ fp)) * pow10 (ex - int (length fp)), s4))"

definition parse_inf_or_nan :: "string \<Rightarrow> (pyfloat \<times> string) option" where
  "parse_inf_or_nan s =
     (let (neg, t) = strip_sign s
      in if map to_lower (take 3 t) = ''inf'' then
           Some (if neg then NegInf else PosInf,
                 if map to_lower (take 5 (drop 3 t)) = ''inity'' then drop 8 t else drop 3 t)
         else if map to_lower (take 3 t) = ''nan'' then Some (NaN, drop 3 t)
         else None)"

definition float_from_string_inner :: "string \<Rightarrow> py_error + pyfloat" where
  "float_from_string_inner s =
     (let s1 = dropWhile is_space s
      in if s1 = [] then Inl ValueError
         else
           let s2 = rev (dropWhile is_space (rev s1))
           in case strtod s2 of
                Some (neg, v, rest) \<Rightarrow>
                  if rest = [] then Inr (signed_double neg v) else Inl ValueError
              | None \<Rightarrow>
                  (case parse_inf_or_nan s2 of
                     Some (x, rest) \<Rightarrow> if rest = [] then Inr x else Inl ValueError
                   | None \<Rightarrow> Inl ValueError))"

definition py_float :: "string \<Rightarrow> py_error + pyfloat" where
  "py_float s =
     (if CHR ''_'' \<notin> set s then float_from_string_inner s
      else if underscores_ok (CHR 0x00) s
        then float_from_string_inner (filter (\<lambda>c. c \<noteq> CHR ''_'') s)
      else Inl ValueError)"

text \<open>\<^verbatim>\<open>s.replace(old, '')\<close> for a one-character \<open>old\<close>.\<close>

definition remove_char :: "char \<Rightarrow> string \<Rightarrow> string" where
  "remove_char old s = filter (\<lambda>c. c \<noteq> old) s"

section \<open>FinanceCalculator\<close>

text \<open>
  \<^verbatim>\<open>calculate_available(budget, spent)\<close>, on the strings \<^verbatim>\<open>str(budget)\<close> and
  \<^verbatim>\<open>str(spent)\<close>.  The \<^verbatim>\<open>try\<close> block evaluates both conversions in order and subtracts;
  the handler catches \<^verbatim>\<open>ValueError\<close> and \<^verbatim>\<open>TypeError\<close> and returns \<^verbatim>\<open>0.0\<close>.
\<close>

definition strip_currency :: "string \<Rightarrow> string" where
  "strip_currency s = remove_char (CHR '','') (remove_char (CHR ''$'') s)"

definition calculate_available_body :: "string \<Rightarrow> string \<Rightarrow> py_error + pyfloat" where
  "calculate_available_body budget spent =
     (case py_float (strip_currency budget) of
        Inl e \<Rightarrow> Inl e
      | Inr budget_val \<Rightarrow>
          (case py_float (strip_currency spent) of
             Inl e \<Rightarrow> Inl e
           | Inr spent_val \<Rightarrow> Inr (fsub budget_val spent_val)))"

definition calculate_available :: "string \<Rightarrow> string \<Rightarrow> py_error + pyfloat" where
  "calculate_available budget spent =
     (case calculate_available_body budget spent of
        Inl e \<Rightarrow> if e = ValueError \<or> e = TypeError then Inr (Finite 0) else Inl e
      | Inr v \<Rightarrow> Inr v)"

text \<open>The comparison \<^verbatim>\<open>x < 0\<close> and the negation \<^verbatim>\<open>-x\<close> of a float.\<close>

fun flt_zero :: "pyfloat \<Rightarrow> bool" where
  "flt_zero (Finite q) = (q < 0)"
| "flt_zero NegInf = True"
| "flt_zero x = False"

fun fneg :: "pyfloat \<Rightarrow> pyfloat" where
  "fneg (Finite q) = (if q = 0 then NegZero else Finite (- q))"
| "fneg NegZero = Finite 0"
| "fneg PosInf = NegInf"
| "fneg NegInf = PosInf"
| "fneg NaN = NaN"

subsection \<open>format_currency\<close>

text \<open>
  \<^verbatim>\<open>f"${amount:,.2f}"\<close>: the format specification \<^verbatim>\<open>,.2f\<close> rounds the exact value of
  the float to two decimals (ties to even), keeps the sign of the float, and groups the
  integer digits in threes; an infinity or a NaN is rendered as a word.
\<close>

definition digit_char :: "int \<Rightarrow> char" where
  "digit_char d = char_of (48 + d)"

function dec_digits :: "int \<Rightarrow> string" where
  "dec_digits n = (if n < 10 then [digit_char n] else dec_digits (n div 10) @ [digit_char (n mod 10)])"
  by pat_completeness auto
termination
  by (relation "measure nat") auto

declare dec_digits.simps [simp del]

function group3 :: "string \<Rightarrow> string" where
  "group3 ds =
     (if length ds \<le> 3 then ds
      else group3 (take (length ds - 3) ds) @ '','' @ drop (length ds - 3) ds)"
  by pat_completeness auto
termination
  by (relation "measure length") auto

declare group3.simps [simp del]

text \<open>The text of \<open>n\<close> hundredths: grouped integer part, point, two decimals.\<close>

definition fixed2 :: "int \<Rightarrow> string" where
  "fixed2 n =
     group3 (dec_digits (n div 100)) @ ''.'' @ [digit_char (n mod 100 div 10), digit_char (n mod 10)]"

definition format_comma_2f :: "pyfloat \<Rightarrow> string" where
  "format_comma_2f x =
     (case x of
        NaN \<Rightarrow> ''nan''
      | PosInf \<Rightarrow> ''inf''
      | NegInf \<Rightarrow> ''-inf''
      | NegZero \<Rightarrow> ''-'' @ fixed2 0
      | Finite q \<Rightarrow> (if q < 0 then ''-'' else []) @ fixed2 (round_half_even (\<bar>q\<bar> * 100)))"

definition format_currency :: "pyfloat \<Rightarrow> string" where
  "format_currency amount = ''$'' @ format_comma_2f amount"

text \<open>
  The shape that thousands separators give to an integer part, read from the right:
  groups of three digits, each followed by a comma, and a last group of one to three
  digits.
\<close>

fun grouped_rev :: "string \<Rightarrow> bool" where
  "grouped_rev (a # b # c # d # rest) =
     (is_digit a \<and> is_digit b \<and> is_digit c \<and> d = CHR '','' \<and> grouped_rev rest)"
| "grouped_rev [] = False"
| "grouped_rev ds = list_all is_digit ds"

definition thousands_grouped :: "string \<Rightarrow> bool" where
  "thousands_grouped s = grouped_rev (rev s)"

text \<open>The finite floats, and the amount in hundredths that the format shows.\<close>

fun is_finite :: "pyfloat \<Rightarrow> bool" where
  "is_finite (Finite q) = True"
| "is_finite NegZero = True"
| "is_finite x = False"

fun hundredths :: "pyfloat \<Rightarrow> int" where
  "hundredths (Finite q) = round_half_even (\<bar>q\<bar> * 100)"
| "hundredths x = 0"

subsection \<open>get_status_indicator\<close>

text \<open>Comparisons of floats: \<^verbatim>\<open>x > t\<close> for a number \<open>t\<close>, and \<^verbatim>\<open>x <= y\<close>.\<close>

fun fgt :: "pyfloat \<Rightarrow> rat \<Rightarrow> bool" where
  "fgt (Finite q) t = (t < q)"
| "fgt NegZero t = (t < 0)"
| "fgt PosInf t = True"
| "fgt NegInf t = False"
| "fgt NaN t = False"

fun fle :: "pyfloat \<Rightarrow> pyfloat \<Rightarrow> bool" where
  "fle NaN y = False"
| "fle x NaN = False"
| "fle NegInf y = True"
| "fle x PosInf = True"
| "fle PosInf y = False"
| "fle x NegInf = False"
| "fle NegZero NegZero = True"
| "fle NegZero (Finite y) = (0 \<le> y)"
| "fle (Finite x) NegZero = (x \<le> 0)"
| "fle (Finite x) (Finite y) = (x \<le> y)"

text \<open>
  Modelled from the spec: the body of \<^verbatim>\<open>get_status_indicator\<close> after its first branch.
  The source at hand ends inside the first \<^verbatim>\<open>return\<close> of the function
  (\<^verbatim>\<open>if available > 1000: return ...\<close>); the spec says that the function "maps the
  available balance into ordered threshold bands (e.g., available > 1000 -> positive
  indicator)" and that "exact thresholds and band count are presentation policy".  The
  remaining bands are therefore a chain of tests \<^verbatim>\<open>elif available > t\<close> over a list of
  thresholds that is a parameter, closed by an \<^verbatim>\<open>else\<close>.  A band is identified by its
  favorability rank: the number of bands below it, so the final \<^verbatim>\<open>else\<close> has rank 0.
\<close>

fun threshold_bands :: "rat list \<Rightarrow> pyfloat \<Rightarrow> nat" where
  "threshold_bands [] available = 0"
| "threshold_bands (t # ts) available =
     (if fgt available t then Suc (length ts) else threshold_bands ts available)"

definition get_status_indicator :: "rat list \<Rightarrow> pyfloat \<Rightarrow> nat" where
  "get_status_indicator lower_thresholds available =
     (if fgt available 1000 then Suc (length lower_thresholds)
      else threshold_bands lower_thresholds available)"

section \<open>GoogleSheetsManager\<close>

subsection \<open>The spreadsheet\<close>

text \<open>
  A cell value as \<^verbatim>\<open>get_all_records\<close> presents it: text, or a number where the cell
  text reads as one.  A worksheet is the list of its rows of values, the header row
  first; the spreadsheet holds its worksheets by title, together with the log of the
  write requests sent to the service.  Authentication and transport failures are not
  modelled.
\<close>

datatype cell = PyStr string | PyInt int | PyFloat pyfloat

definition blank :: cell where
  "blank = PyStr []"

datatype request = UpdateCell string nat nat cell | AppendRow string "cell list"

record spreadsheet =
  worksheets :: "string \<Rightarrow> cell list list option"
  writes :: "request list"

definition get_worksheet :: "spreadsheet \<Rightarrow> string \<Rightarrow> py_error + cell list list" where
  "get_worksheet ss worksheet_name =
     (case worksheets ss worksheet_name of
        None \<Rightarrow> Inl WorksheetNotFound
      | Some ws \<Rightarrow> Inr ws)"

text \<open>
  \<^verbatim>\<open>dict(zip(keys, row))\<close>: a dict is an association list in insertion order; storing
  under a key that is present replaces the value in place.
\<close>

definition py_dict :: "('k \<times> 'v) list \<Rightarrow> ('k \<times> 'v) list" where
  "py_dict kvs = foldl (\<lambda>d (k, v). AList.update k v d) [] kvs"

text \<open>
  \<^verbatim>\<open>worksheet.get_all_records()\<close>: the first row gives the keys, every later row one
  record; a sheet without rows gives no record.
\<close>

definition get_all_records :: "cell list list \<Rightarrow> (cell \<times> cell) list list" where
  "get_all_records ws =
     (case ws of
        [] \<Rightarrow> []
      | keys # rows \<Rightarrow> map (\<lambda>row. py_dict (zip keys row)) rows)"

text \<open>
  \<^verbatim>\<open>pd.DataFrame(data)\<close> for a list of dicts: the columns are the keys in order of first
  appearance, a key missing from a record gives NaN, the index is \<open>0, 1, ...\<close>.
\<close>

record dataframe =
  columns :: "cell list"
  df_rows :: "cell list list"

definition first_occurrences :: "'a list \<Rightarrow> 'a list" where
  "first_occurrences xs = rev (remdups (rev xs))"

definition DataFrame :: "(cell \<times> cell) list list \<Rightarrow> dataframe" where
  "DataFrame data =
     (let cols = first_occurrences (concat (map (map fst) data))
      in \<lparr>columns = cols,
          df_rows = map (\<lambda>d. map (\<lambda>k. case map_of d k of None \<Rightarrow> PyFloat NaN | Some v \<Rightarrow> v) cols) data\<rparr>)"

text \<open>The value at position \<open>i\<close> of a data frame row (every row has one value per column).\<close>

definition row_value :: "cell list \<Rightarrow> nat \<Rightarrow> cell" where
  "row_value r i = (if i < length r then r ! i else PyFloat NaN)"

text \<open>\<^verbatim>\<open>df[label]\<close>: the column with that label, \<^verbatim>\<open>KeyError\<close> if there is none.\<close>

fun index_of :: "'a \<Rightarrow> 'a list \<Rightarrow> nat option" where
  "index_of x [] = None"
| "index_of x (y # ys) = (if x = y then Some 0 else map_option Suc (index_of x ys))"

definition df_getitem :: "dataframe \<Rightarrow> cell \<Rightarrow> py_error + cell list" where
  "df_getitem df label =
     (case index_of label (columns df) of
        None \<Rightarrow> Inl KeyError
      | Some i \<Rightarrow> Inr (map (\<lambda>r. row_value r i) (df_rows df)))"


text \<open>
  The sheet seen by address, rows and columns counted from 1: a cell outside the stored
  values is blank.  \<open>set_cell\<close> stores a value at an address, extending the stored values
  with blanks as far as needed.
\<close>

definition cell_at :: "cell list list \<Rightarrow> nat \<Rightarrow> nat \<Rightarrow> cell" where
  "cell_at ws r c =
     (if 1 \<le> r \<and> r \<le> length ws \<and> 1 \<le> c \<and> c \<le> length (ws ! (r - 1))
      then ws ! (r - 1) ! (c - 1) else blank)"

definition set_cell :: "cell list list \<Rightarrow> nat \<Rightarrow> nat \<Rightarrow> cell \<Rightarrow> cell list list" where
  "set_cell ws r c v =
     (let ws1 = ws @ replicate (r - length ws) [];
          row = ws1 ! (r - 1);
          row1 = row @ replicate (c - length row) blank
      in ws1[r - 1 := row1[c - 1 := v]])"

text \<open>\<^verbatim>\<open>worksheet.update_cell(row, col, value)\<close>: one write request for one cell.\<close>

definition update_cell ::
  "spreadsheet \<Rightarrow> string \<Rightarrow> nat \<Rightarrow> nat \<Rightarrow> cell \<Rightarrow> py_error + spreadsheet" where
  "update_cell ss worksheet_name row col v =
     (case worksheets ss worksheet_name of
        None \<Rightarrow> Inl WorksheetNotFound
      | Some ws \<Rightarrow>
          if row = 0 \<or> col = 0 then Inl APIError
          else Inr (ss\<lparr>worksheets := (worksheets ss)(worksheet_name \<mapsto> set_cell ws row col v),
                       writes := writes ss @ [UpdateCell worksheet_name row col v]\<rparr>))"

text \<open>
  \<^verbatim>\<open>worksheet.append_row(values)\<close>: one write request; the row is placed after the last
  row of the sheet's values.
\<close>

definition append_row :: "spreadsheet \<Rightarrow> string \<Rightarrow> cell list \<Rightarrow> py_error + spreadsheet" where
  "append_row ss worksheet_name vals =
     (case worksheets ss worksheet_name of
        None \<Rightarrow> Inl WorksheetNotFound
      | Some ws \<Rightarrow>
          Inr (ss\<lparr>worksheets := (worksheets ss)(worksheet_name \<mapsto> ws @ [vals]),
                  writes := writes ss @ [AppendRow worksheet_name vals]\<rparr>))"

subsection \<open>The methods\<close>


text \<open>The position of the first \<open>True\<close> of a mask that has one (\<^verbatim>\<open>df[mask].index[0]\<close>).\<close>

definition first_true :: "bool list \<Rightarrow> nat" where
  "first_true bs = length (takeWhile Not bs)"

text \<open>
  \<^verbatim>\<open>update_expense(category, amount, worksheet_name)\<close>; the result is the returned
  boolean and the spreadsheet afterwards.
\<close>

definition update_expense ::
  "spreadsheet \<Rightarrow> string \<Rightarrow> cell \<Rightarrow> string \<Rightarrow> py_error + (bool \<times> spreadsheet)" where
  "update_expense ss category amount worksheet_name =
     (case get_worksheet ss worksheet_name of
        Inl e \<Rightarrow> Inl e
      | Inr worksheet \<Rightarrow>
          let df = DataFrame (get_all_records worksheet)
          in case columns df of
               [] \<Rightarrow> Inl IndexError
             | category_col # _ \<Rightarrow>
                 (case df_getitem df category_col of
                    Inl e \<Rightarrow> Inl e
                  | Inr col \<Rightarrow>
                      let row_mask = map (\<lambda>v. v = PyStr category) col
                      in if True \<in> set row_mask then
                           (let row_index = first_true row_mask + 2
                            in case update_cell ss worksheet_name row_index 3 amount of
                                 Inl e \<Rightarrow> Inl e
                               | Inr ss' \<Rightarrow> Inr (True, ss'))
                         else Inr (False, ss)))"

text \<open>\<^verbatim>\<open>add_transaction(date, category, description, amount, worksheet_name)\<close>.\<close>

definition add_transaction ::
  "spreadsheet \<Rightarrow> cell \<Rightarrow> cell \<Rightarrow> cell \<Rightarrow> cell \<Rightarrow> string \<Rightarrow> py_error + spreadsheet" where
  "add_transaction ss date category description amount worksheet_name =
     (case get_worksheet ss worksheet_name of
        Inl e \<Rightarrow> Inl e
      | Inr worksheet \<Rightarrow> append_row ss worksheet_name [date, category, description, amount])"


text \<open>
  A well-formed sheet: the header row has at least one name, every row has the width of
  the header (\<^verbatim>\<open>get_all_values\<close> pads the rows of a sheet to one width), and the header
  names are pairwise distinct (with a repeated name \<^verbatim>\<open>dict(zip(keys, row))\<close> merges
  columns, and newer releases of gspread reject the sheet).
\<close>

definition wf_sheet :: "cell list list \<Rightarrow> bool" where
  "wf_sheet ws =
     (case ws of
        [] \<Rightarrow> True
      | header # rows \<Rightarrow>
          header \<noteq> [] \<and> distinct header \<and> list_all (\<lambda>r. length r = length header) rows)"

text \<open>The first-column value of a row, and the data rows of a sheet.\<close>

definition row_category :: "cell list \<Rightarrow> cell" where
  "row_category r = (case r of [] \<Rightarrow> blank | c # _ \<Rightarrow> c)"

definition data_rows :: "cell list list \<Rightarrow> cell list list" where
  "data_rows ws = (case ws of [] \<Rightarrow> [] | header # rows \<Rightarrow> rows)"

subsection \<open>Example sheets\<close>

text \<open>
  A budget book with three categories, the same book with the budget sheet reduced to
  its header row, and a transaction log.
\<close>

definition budget_header :: "cell list" where
  "budget_header = [PyStr ''Categoria'', PyStr ''Presupuesto'', PyStr ''Gasto'']"

definition budget_rows :: "cell list list" where
  "budget_rows =
     [[PyStr ''Comida'', PyStr ''$1,200.00'', PyStr ''$450.50''],
      [PyStr ''Casa'', PyInt 500, PyInt 400],
      [PyStr ''Ocio'', PyInt 100, PyInt 0]]"

definition transaction_rows :: "cell list list" where
  "transaction_rows =
     [[PyStr ''Fecha'', PyStr ''Categoria'', PyStr ''Descripcion'', PyStr ''Monto''],
      [PyStr ''2024-01-05'', PyStr ''Comida'', PyStr ''Mercado'', PyFloat (Finite (901 / 2))]]"

definition example_book :: spreadsheet where
  "example_book =
     \<lparr>worksheets = [''Presupuesto'' \<mapsto> budget_header # budget_rows,
                     ''Transacciones'' \<mapsto> transaction_rows],
      writes = []\<rparr>"

definition header_only_book :: spreadsheet where
  "header_only_book =
     \<lparr>worksheets = [''Presupuesto'' \<mapsto> [budget_header],
                     ''Transacciones'' \<mapsto> transaction_rows],
      writes = []\<rparr>"

section \<open>Properties of FinanceCalculator\<close>

subsection \<open>Rounding to binary64\<close>

lemma pow2_powi: "pow2 e = 2 powi e"
  by (simp add: pow2_def power_int_def inverse_eq_divide power_one_over)




lemma pow2_less_mono: "a < b \<Longrightarrow> pow2 a < pow2 b"
  by (simp add: pow2_powi power_int_strict_increasing)







subsection \<open>calculate_available\<close>

lemma float_from_string_inner_error:
  "float_from_string_inner s = Inl e \<Longrightarrow> e = ValueError"
  by (auto simp: float_from_string_inner_def Let_def split: if_splits option.splits prod.splits)

lemma py_float_error: "py_float s = Inl e \<Longrightarrow> e = ValueError"
  by (auto simp: py_float_def split: if_splits dest: float_from_string_inner_error)

lemma calculate_available_total: "\<exists>v. calculate_available budget spent = Inr v"
  by (auto simp: calculate_available_def calculate_available_body_def
           split: sum.splits dest: py_float_error)

lemma strip_currency_filter:
  "strip_currency s = filter (\<lambda>c. c \<noteq> CHR ''$'' \<and> c \<noteq> CHR '','') s"
  by (auto simp: strip_currency_def remove_char_def intro: filter_cong)

lemma strip_currency_idem: "strip_currency (strip_currency s) = strip_currency s"
  by (simp add: strip_currency_filter)

text \<open>
  Claim C2.  Whenever one of the two inputs, with every \<^verbatim>\<open>$\<close> and \<^verbatim>\<open>,\<close> removed, is a
  string that \<^verbatim>\<open>float\<close> rejects, \<open>calculate_available\<close> returns \<^verbatim>\<open>0.0\<close>; the result is a
  returned value (\<open>Inr\<close>), not a raised exception.
\<close>

theorem calculate_available_unparsable:
  assumes "py_float (strip_currency budget) = Inl ValueError
           \<or> py_float (strip_currency spent) = Inl ValueError"
  shows "calculate_available budget spent = Inr (Finite 0)"
  using assms
  by (auto simp: calculate_available_def calculate_available_body_def
           split: sum.splits dest: py_float_error)

text \<open>The instance of the spec: \<^verbatim>\<open>calculate_available("abc", "100") = 0.0\<close>.\<close>

theorem calculate_available_unparsable_witness:
  "py_float (strip_currency ''abc'') = Inl ValueError
   \<and> py_float (strip_currency ''100'') = Inr (Finite 100)
   \<and> calculate_available ''abc'' ''100'' = Inr (Finite 0)"
proof -
  have h: "py_float (strip_currency ''abc'') = Inl ValueError"
    by code_simp
  have p: "py_float (strip_currency ''100'') = Inr (Finite 100)"
    by code_simp
  from h have "calculate_available ''abc'' ''100'' = Inr (Finite 0)"
    by (intro calculate_available_unparsable disjI1)
  with h p show ?thesis by blast
qed



text \<open>
  Claim C8.  Every \<^verbatim>\<open>$\<close> and every \<^verbatim>\<open>,\<close> is removed from an input, wherever it stands,
  before parsing: on either argument, \<open>calculate_available\<close> gives the same result for
  a string \<open>s\<close> as for \<open>s\<close> with all occurrences of the two characters deleted.
\<close>

theorem calculate_available_strips_everywhere:
  "calculate_available s t
     = calculate_available (filter (\<lambda>c. c \<noteq> CHR ''$'' \<and> c \<noteq> CHR '','') s) t
   \<and> calculate_available t s
     = calculate_available t (filter (\<lambda>c. c \<noteq> CHR ''$'' \<and> c \<noteq> CHR '','') s)"
proof -
  have "calculate_available_body (strip_currency s) t = calculate_available_body s t"
    and "calculate_available_body t (strip_currency s) = calculate_available_body t s"
    by (simp_all only: calculate_available_body_def strip_currency_idem)
  then show ?thesis
    by (simp only: calculate_available_def strip_currency_filter [symmetric] simp_thms)
qed

text \<open>
  The instances of the claim: \<^verbatim>\<open>"1,2$3"\<close> is treated as \<^verbatim>\<open>"123"\<close>; a Euro sign
  (the bytes \<open>E2 82 AC\<close>) is kept by the stripping and makes the input malformed.
\<close>

theorem calculate_available_strips_everywhere_witness:
  "filter (\<lambda>c. c \<noteq> CHR ''$'' \<and> c \<noteq> CHR '','') ''1,2$3'' = ''123''
   \<and> calculate_available ''1,2$3'' ''23'' = calculate_available ''123'' ''23''
   \<and> calculate_available ''1,2$3'' ''23'' = Inr (Finite 100)
   \<and> strip_currency [CHR 0xE2, CHR 0x82, CHR 0xAC, CHR ''1'', CHR ''0'', CHR ''0'']
        = [CHR 0xE2, CHR 0x82, CHR 0xAC, CHR ''1'', CHR ''0'', CHR ''0'']
   \<and> py_float [CHR 0xE2, CHR 0x82, CHR 0xAC, CHR ''1'', CHR ''0'', CHR ''0''] = Inl ValueError"
proof -
  have f: "filter (\<lambda>c. c \<noteq> CHR ''$'' \<and> c \<noteq> CHR '','') ''1,2$3'' = ''123''"
    by simp
  have e: "calculate_available ''1,2$3'' ''23'' = calculate_available ''123'' ''23''"
    using calculate_available_strips_everywhere [of "''1,2$3''" "''23''"] by (simp only: f)
  have v: "calculate_available ''123'' ''23'' = Inr (Finite 100)"
    by code_simp
  have k: "strip_currency [CHR 0xE2, CHR 0x82, CHR 0xAC, CHR ''1'', CHR ''0'', CHR ''0'']
        = [CHR 0xE2, CHR 0x82, CHR 0xAC, CHR ''1'', CHR ''0'', CHR ''0'']"
    by code_simp
  have u: "py_float [CHR 0xE2, CHR 0x82, CHR 0xAC, CHR ''1'', CHR ''0'', CHR ''0''] = Inl ValueError"
    by code_simp
  from f e v k u show ?thesis by simp
qed

subsection \<open>format_currency\<close>

lemma digit_char_digit:
  assumes "0 \<le> d" "d \<le> 9"
  shows "is_digit (digit_char d)" and "digit_val (digit_char d) = d"
proof -
  have "d = 0 \<or> d = 1 \<or> d = 2 \<or> d = 3 \<or> d = 4 \<or> d = 5 \<or> d = 6 \<or> d = 7
          \<or> d = 8 \<or> d = 9"
    using assms by arith
  then show "is_digit (digit_char d)" and "digit_val (digit_char d) = d"
    by (auto simp: is_digit_def digit_val_def digit_char_def)
qed

lemma digits_value_snoc: "digits_value (ds @ [c]) = 10 * digits_value ds + digit_val c"
  by (simp add: digits_value_def)

lemma dec_digits_props:
  "0 \<le> n \<Longrightarrow> list_all is_digit (dec_digits n) \<and> dec_digits n \<noteq> []
      \<and> digits_value (dec_digits n) = n"
proof (induction n rule: dec_digits.induct)
  case (1 n)
  show ?case
  proof (cases "n < 10")
    case True
    with "1.prems" have "is_digit (digit_char n)" "digit_val (digit_char n) = n"
      by (simp_all add: digit_char_digit)
    with True show ?thesis
      by (simp add: dec_digits.simps [of n] digits_value_def)
  next
    case False
    with "1.prems" have ih: "list_all is_digit (dec_digits (n div 10))"
      "digits_value (dec_digits (n div 10)) = n div 10"
      using "1.IH" by simp_all
    have "0 \<le> n mod 10" "n mod 10 \<le> 9" by simp_all
    then have "is_digit (digit_char (n mod 10))" "digit_val (digit_char (n mod 10)) = n mod 10"
      by (simp_all add: digit_char_digit)
    with False ih show ?thesis
      by (simp add: dec_digits.simps [of n] digits_value_snoc)
  qed
qed

lemma length3: "length xs = 3 \<Longrightarrow> \<exists>a b c. xs = [a, b, c]"
  by (cases xs; cases "tl xs"; cases "tl (tl xs)") auto

lemma grouped_rev_short:
  "ds \<noteq> [] \<Longrightarrow> length ds \<le> 3 \<Longrightarrow> grouped_rev ds = list_all is_digit ds"
  by (cases ds rule: grouped_rev.cases) auto

lemma group3_props:
  "ds \<noteq> [] \<Longrightarrow> list_all is_digit ds \<Longrightarrow>
     grouped_rev (rev (group3 ds)) \<and> filter (\<lambda>c. c \<noteq> CHR '','') (group3 ds) = ds"
proof (induction ds rule: group3.induct)
  case (1 ds)
  have nocomma: "filter (\<lambda>c. c \<noteq> CHR '','') xs = xs" if "list_all is_digit xs" for xs
    using that by (induction xs) (auto simp: is_digit_def)
  show ?case
  proof (cases "length ds \<le> 3")
    case True
    with "1.prems" have "grouped_rev (rev ds)"
      by (simp add: grouped_rev_short)
    with True "1.prems" show ?thesis
      by (simp add: group3.simps [of ds] nocomma)
  next
    case False
    define front where "front = take (length ds - 3) ds"
    define last3 where "last3 = drop (length ds - 3) ds"
    have split: "ds = front @ last3" by (simp add: front_def last3_def)
    from False have fne: "front \<noteq> []" by (auto simp: front_def)
    from False have "length last3 = 3" by (simp add: last3_def)
    then obtain a b c where last3: "last3 = [a, b, c]" using length3 by blast
    from "1.prems"(2) split have fd: "list_all is_digit front" and bd: "list_all is_digit last3"
      by simp_all
    from "1.IH" [OF False] fne fd
    have ih: "grouped_rev (rev (group3 front))"
      "filter (\<lambda>c. c \<noteq> CHR '','') (group3 front) = front"
      by (simp_all add: front_def)
    have g: "group3 ds = group3 front @ '','' @ last3"
      using False by (simp add: group3.simps [of ds] front_def last3_def)
    have "grouped_rev (rev (group3 ds))"
      using ih(1) bd by (simp add: g last3)
    moreover have "filter (\<lambda>c. c \<noteq> CHR '','') (group3 ds) = front @ last3"
      unfolding g using ih(2) nocomma [OF bd] by simp
    then have "filter (\<lambda>c. c \<noteq> CHR '','') (group3 ds) = ds"
      by (simp only: split [symmetric])
    ultimately show ?thesis by simp
  qed
qed

lemma round_half_even_nonneg: "0 \<le> x \<Longrightarrow> 0 \<le> round_half_even x"
proof -
  assume "0 \<le> x"
  then have "0 \<le> \<lfloor>x\<rfloor>" by simp
  then show ?thesis by (simp add: round_half_even_def Let_def)
qed

lemma two_digits:
  fixes n :: int
  shows "0 \<le> n mod 100 div 10" "n mod 100 div 10 \<le> 9" "0 \<le> n mod 10" "n mod 10 \<le> 9"
    "10 * (n mod 100 div 10) + n mod 10 = n mod 100"
proof -
  have a: "0 \<le> n mod 100" "n mod 100 < 100" by simp_all
  show "0 \<le> n mod 100 div 10" using a by simp
  show "n mod 100 div 10 \<le> 9" using a by simp
  show "0 \<le> n mod 10" "n mod 10 \<le> 9" by simp_all
  have "n mod 100 mod 10 = n mod 10" by (simp add: mod_mod_cancel)
  then show "10 * (n mod 100 div 10) + n mod 10 = n mod 100"
    using mult_div_mod_eq [of 10 "n mod 100"] by simp
qed

lemma fixed2_shape:
  assumes "0 \<le> n"
  shows "\<exists>ip d1 d2. fixed2 n = ip @ ''.'' @ [d1, d2]
           \<and> thousands_grouped ip \<and> is_digit d1 \<and> is_digit d2
           \<and> digits_value (filter (\<lambda>c. c \<noteq> CHR '','') ip) * 100 + digits_value [d1, d2] = n"
proof -
  define ip where "ip = group3 (dec_digits (n div 100))"
  define d1 where "d1 = digit_char (n mod 100 div 10)"
  define d2 where "d2 = digit_char (n mod 10)"
  from assms have "0 \<le> n div 100" by simp
  from dec_digits_props [OF this]
  have dd: "list_all is_digit (dec_digits (n div 100))" "dec_digits (n div 100) \<noteq> []"
    "digits_value (dec_digits (n div 100)) = n div 100"
    by simp_all
  from group3_props [OF dd(2) dd(1)]
  have g: "thousands_grouped ip" "filter (\<lambda>c. c \<noteq> CHR '','') ip = dec_digits (n div 100)"
    by (simp_all add: ip_def thousands_grouped_def)
  from digit_char_digit [OF two_digits(1,2)] digit_char_digit [OF two_digits(3,4)]
  have d: "is_digit d1" "digit_val d1 = n mod 100 div 10" "is_digit d2" "digit_val d2 = n mod 10"
    by (simp_all add: d1_def d2_def)
  have "digits_value [d1, d2] = 10 * (n mod 100 div 10) + n mod 10"
    using d by (simp add: digits_value_def)
  also have "\<dots> = n mod 100" by (rule two_digits(5))
  finally have dv: "digits_value [d1, d2] = n mod 100" .
  have "n div 100 * 100 + n mod 100 = n" by simp
  with dv have v: "digits_value (filter (\<lambda>c. c \<noteq> CHR '','') ip) * 100 + digits_value [d1, d2] = n"
    using g(2) dd(3) by simp
  have "fixed2 n = ip @ ''.'' @ [d1, d2]"
    by (simp add: fixed2_def ip_def d1_def d2_def)
  with g(1) d(1,3) v show ?thesis by blast
qed

text \<open>
  Claim C4, amended.  For every finite amount, \<open>format_currency\<close> gives the currency
  symbol \<^verbatim>\<open>$\<close>, a minus sign if the float is negative (or is \<^verbatim>\<open>-0.0\<close>), the integer part
  in groups of three digits separated by commas, a point, and exactly two decimal digits;
  the digits are those of the amount rounded to hundredths.
\<close>

theorem format_currency_shape:
  assumes "is_finite amount"
  shows "\<exists>sign ip d1 d2.
           format_currency amount = ''$'' @ sign @ ip @ ''.'' @ [d1, d2]
           \<and> (sign = [] \<or> sign = ''-'')
           \<and> thousands_grouped ip \<and> is_digit d1 \<and> is_digit d2
           \<and> digits_value (filter (\<lambda>c. c \<noteq> CHR '','') ip) * 100 + digits_value [d1, d2]
               = hundredths amount"
proof (cases amount)
  case (Finite q)
  have "0 \<le> round_half_even (\<bar>q\<bar> * 100)" by (rule round_half_even_nonneg) simp
  from fixed2_shape [OF this] obtain ip d1 d2
    where "fixed2 (round_half_even (\<bar>q\<bar> * 100)) = ip @ ''.'' @ [d1, d2]"
      and "thousands_grouped ip" "is_digit d1" "is_digit d2"
      and "digits_value (filter (\<lambda>c. c \<noteq> CHR '','') ip) * 100 + digits_value [d1, d2]
             = round_half_even (\<bar>q\<bar> * 100)"
    by blast
  then have "format_currency amount = ''$'' @ (if q < 0 then ''-'' else []) @ ip @ ''.'' @ [d1, d2]
        \<and> ((if q < 0 then ''-'' else []) = [] \<or> (if q < 0 then ''-'' else []) = ''-'')
        \<and> thousands_grouped ip \<and> is_digit d1 \<and> is_digit d2
        \<and> digits_value (filter (\<lambda>c. c \<noteq> CHR '','') ip) * 100 + digits_value [d1, d2]
             = hundredths amount"
    by (simp add: Finite format_currency_def format_comma_2f_def)
  then show ?thesis by blast
next
  case NegZero
  from fixed2_shape [of 0] obtain ip d1 d2
    where "fixed2 0 = ip @ ''.'' @ [d1, d2]"
      and "thousands_grouped ip" "is_digit d1" "is_digit d2"
      and "digits_value (filter (\<lambda>c. c \<noteq> CHR '','') ip) * 100 + digits_value [d1, d2] = 0"
    by auto
  then have "format_currency amount = ''$'' @ ''-'' @ ip @ ''.'' @ [d1, d2]
        \<and> thousands_grouped ip \<and> is_digit d1 \<and> is_digit d2
        \<and> digits_value (filter (\<lambda>c. c \<noteq> CHR '','') ip) * 100 + digits_value [d1, d2]
             = hundredths amount"
    by (simp add: NegZero format_currency_def format_comma_2f_def)
  then show ?thesis by blast
qed (use assms in simp_all)

text \<open>The instance of the spec: \<^verbatim>\<open>format_currency(1234.5) = "$1,234.50"\<close>.\<close>

theorem format_currency_shape_witness:
  "is_finite (Finite (2469 / 2))
   \<and> hundredths (Finite (2469 / 2)) = 123450
   \<and> thousands_grouped ''1,234''
   \<and> is_digit (last (format_currency (Finite (2469 / 2))))
   \<and> format_currency (Finite (2469 / 2)) = ''$1,234.50''"
proof -
  have f: "is_finite (Finite (2469 / 2))" by simp
  have h: "hundredths (Finite (2469 / 2)) = 123450" by code_simp
  have g: "thousands_grouped ''1,234''" by code_simp
  from format_currency_shape [OF f] obtain sign ip d1 d2
    where "format_currency (Finite (2469 / 2)) = ''$'' @ sign @ ip @ ''.'' @ [d1, d2]"
      and "is_digit d2"
    by blast
  then have l: "is_digit (last (format_currency (Finite (2469 / 2))))" by simp
  have v: "format_currency (Finite (2469 / 2)) = ''$1,234.50''" by code_simp
  from f h g l v show ?thesis by blast
qed

text \<open>
  Claim C4 as stated, for every numeric amount, fails at the floats that are not finite:
  an infinity or a NaN is rendered as a word, without separators or decimals.
\<close>

theorem format_currency_infinity_counterexample:
  "format_currency PosInf = ''$inf'' \<and> CHR ''.'' \<notin> set (format_currency PosInf)
   \<and> format_currency NaN = ''$nan''"
  by (simp add: format_currency_def format_comma_2f_def)

text \<open>
  Claim C9.  For a negative amount (\<^verbatim>\<open>amount < 0\<close>) the minus sign comes after the
  currency symbol: the result is \<^verbatim>\<open>$-\<close> followed by the rendering of \<^verbatim>\<open>-amount\<close>.
\<close>

theorem format_currency_negative:
  assumes "flt_zero amount"
  shows "format_currency amount = ''$-'' @ format_comma_2f (fneg amount)"
  using assms by (cases amount) (auto simp: format_currency_def format_comma_2f_def)

text \<open>The instance of the claim: \<^verbatim>\<open>format_currency(-1234.5) = "$-1,234.50"\<close>.\<close>

theorem format_currency_negative_witness:
  "flt_zero (Finite (- 2469 / 2))
   \<and> format_comma_2f (fneg (Finite (- 2469 / 2))) = ''1,234.50''
   \<and> format_currency (Finite (- 2469 / 2)) = ''$-1,234.50''"
proof -
  have n: "flt_zero (Finite (- 2469 / 2))" by simp
  have r: "format_comma_2f (fneg (Finite (- 2469 / 2))) = ''1,234.50''" by code_simp
  from format_currency_negative [OF n] n r show ?thesis by simp
qed

subsection \<open>get_status_indicator\<close>

lemma fgt_mono: "fle a b \<Longrightarrow> fgt a t \<Longrightarrow> fgt b t"
  by (cases a; cases b) auto

lemma threshold_bands_le: "threshold_bands ts a \<le> length ts"
  by (induction ts) auto

lemma threshold_bands_mono:
  "fle a b \<Longrightarrow> threshold_bands ts a \<le> threshold_bands ts b"
proof (induction ts)
  case Nil
  then show ?case by simp
next
  case (Cons t ts)
  show ?case
  proof (cases "fgt a t")
    case True
    with Cons.prems have "fgt b t" by (rule fgt_mono)
    with True show ?thesis by simp
  next
    case False
    have "threshold_bands ts a \<le> threshold_bands ts b" using Cons by simp
    moreover have "threshold_bands ts b \<le> Suc (length ts)"
      using threshold_bands_le [of ts b] by simp
    ultimately show ?thesis using False by simp
  qed
qed

text \<open>
  Claim C7.  For \<^verbatim>\<open>a <= b\<close> the band of \<open>b\<close> is at least as favorable as the band of
  \<open>a\<close>, whatever the lower thresholds are, and an amount above 1000 gets the most
  favorable band.
\<close>

theorem get_status_indicator_monotone:
  "(fle a b \<longrightarrow> get_status_indicator ts a \<le> get_status_indicator ts b)
   \<and> (fgt a 1000 \<longrightarrow> (\<forall>x. get_status_indicator ts x \<le> get_status_indicator ts a))"
proof (intro conjI impI allI)
  assume ab: "fle a b"
  show "get_status_indicator ts a \<le> get_status_indicator ts b"
  proof (cases "fgt a 1000")
    case True
    with ab have "fgt b 1000" by (rule fgt_mono)
    with True show ?thesis by (simp add: get_status_indicator_def)
  next
    case False
    have "threshold_bands ts a \<le> threshold_bands ts b"
      using ab by (rule threshold_bands_mono)
    moreover have "threshold_bands ts b \<le> Suc (length ts)"
      using threshold_bands_le [of ts b] by simp
    ultimately show ?thesis using False by (simp add: get_status_indicator_def)
  qed
next
  fix x
  assume "fgt a 1000"
  moreover have "threshold_bands ts x \<le> Suc (length ts)"
    using threshold_bands_le [of ts x] by simp
  ultimately show "get_status_indicator ts x \<le> get_status_indicator ts a"
    by (simp add: get_status_indicator_def)
qed

text \<open>An instance with the lower thresholds 500 and 0.\<close>

theorem get_status_indicator_monotone_witness:
  "fle (Finite 200) (Finite 1500)
   \<and> get_status_indicator [500, 0] (Finite 200) \<le> get_status_indicator [500, 0] (Finite 1500)
   \<and> fgt (Finite 1500) 1000
   \<and> get_status_indicator [500, 0] NegInf \<le> get_status_indicator [500, 0] (Finite 1500)
   \<and> get_status_indicator [500, 0] (Finite 1500) = 3
   \<and> get_status_indicator [500, 0] (Finite 200) = 1"
proof -
  have ab: "fle (Finite 200) (Finite 1500)" by simp
  have top: "fgt (Finite 1500) 1000" by simp
  from get_status_indicator_monotone [of "Finite 200" "Finite 1500" "[500, 0]"] ab
  have m: "get_status_indicator [500, 0] (Finite 200) \<le> get_status_indicator [500, 0] (Finite 1500)"
    by blast
  from get_status_indicator_monotone [of "Finite 1500" "Finite 1500" "[500, 0]"] top
  have t: "get_status_indicator [500, 0] NegInf \<le> get_status_indicator [500, 0] (Finite 1500)"
    by blast
  have v: "get_status_indicator [500, 0] (Finite 1500) = 3"
    "get_status_indicator [500, 0] (Finite 200) = 1"
    by (simp_all add: get_status_indicator_def)
  from ab top m t v show ?thesis by blast
qed

section \<open>Properties of GoogleSheetsManager\<close>

subsection \<open>Records and data frames of a well-formed sheet\<close>

lemma alist_update_fresh: "k \<notin> fst ` set al \<Longrightarrow> AList.update k v al = al @ [(k, v)]"
  by (induction al) auto

lemma py_dict_acc:
  "distinct (map fst acc @ map fst kvs) \<Longrightarrow>
   foldl (\<lambda>d (k, v). AList.update k v d) acc kvs = acc @ kvs"
proof (induction kvs arbitrary: acc)
  case Nil
  then show ?case by simp
next
  case (Cons kv kvs)
  obtain k v where kv: "kv = (k, v)" by (cases kv)
  from Cons.prems kv have fresh: "k \<notin> fst ` set acc" by auto
  from Cons.prems kv have "distinct (map fst (acc @ [(k, v)]) @ map fst kvs)" by auto
  then have "foldl (\<lambda>d (k, v). AList.update k v d) (acc @ [(k, v)]) kvs = (acc @ [(k, v)]) @ kvs"
    by (rule Cons.IH)
  with fresh kv show ?case by (simp add: alist_update_fresh)
qed

lemma py_dict_zip: "distinct ks \<Longrightarrow> py_dict (zip ks vs) = zip ks vs"
  unfolding py_dict_def
  using py_dict_acc [of "[]" "zip ks vs"] by (simp add: map_fst_zip_take)

lemma first_occurrences_append:
  "distinct h \<Longrightarrow> set ys \<subseteq> set h \<Longrightarrow> first_occurrences (h @ ys) = h"
  by (simp add: first_occurrences_def remdups_append distinct_remdups_id)

lemma concat_same_subset: "set (concat (map (\<lambda>_. h) xs)) \<subseteq> set h"
  by (induction xs) auto

lemma lookup_all_keys:
  "distinct ks \<Longrightarrow> length vs = length ks \<Longrightarrow>
   map (\<lambda>k. case map_of (zip ks vs) k of None \<Rightarrow> d | Some v \<Rightarrow> v) ks = vs"
proof (induction ks arbitrary: vs)
  case Nil
  then show ?case by simp
next
  case (Cons k ks)
  then obtain v vs' where vs: "vs = v # vs'" by (cases vs) auto
  have "map (\<lambda>x. case map_of (zip (k # ks) vs) x of None \<Rightarrow> d | Some v \<Rightarrow> v) ks
        = map (\<lambda>x. case map_of (zip ks vs') x of None \<Rightarrow> d | Some v \<Rightarrow> v) ks"
    using Cons.prems vs by (intro map_cong) auto
  also have "\<dots> = vs'" using Cons vs by simp
  finally show ?case using vs by simp
qed

lemma DataFrame_no_data:
  "data_rows ws = [] \<Longrightarrow> DataFrame (get_all_records ws) = \<lparr>columns = [], df_rows = []\<rparr>"
  by (cases ws) (simp_all add: data_rows_def get_all_records_def DataFrame_def first_occurrences_def)

lemma wf_sheet_Cons:
  "wf_sheet (header # rows) \<longleftrightarrow>
     header \<noteq> [] \<and> distinct header \<and> (\<forall>r\<in>set rows. length r = length header)"
  by (simp add: wf_sheet_def list_all_iff)

lemma DataFrame_data:
  assumes wf: "wf_sheet (header # rows)" and ne: "rows \<noteq> []"
  shows "DataFrame (get_all_records (header # rows)) = \<lparr>columns = header, df_rows = rows\<rparr>"
proof -
  from wf have d: "distinct header" and len: "\<forall>r\<in>set rows. length r = length header"
    by (simp_all add: wf_sheet_Cons)
  have recs: "get_all_records (header # rows) = map (zip header) rows"
    using d by (simp add: get_all_records_def py_dict_zip)
  have keys: "map (map fst) (map (zip header) rows) = map (\<lambda>_. header) rows"
    using len by simp
  obtain r rs where rows: "rows = r # rs" using ne by (cases rows) auto
  have "concat (map (\<lambda>_. header) rows) = header @ concat (map (\<lambda>_. header) rs)"
    by (simp add: rows)
  then have cols: "first_occurrences (concat (map (map fst) (map (zip header) rows))) = header"
    using d concat_same_subset [of header rs] by (simp only: keys first_occurrences_append)
  have vals: "map (\<lambda>rec. map (\<lambda>k. case map_of rec k of None \<Rightarrow> PyFloat NaN | Some v \<Rightarrow> v) header)
                (map (zip header) rows) = rows"
    using d len by (simp add: map_idI lookup_all_keys)
  show ?thesis
    unfolding DataFrame_def recs Let_def cols using vals by simp
qed

lemma row_value_0: "r \<noteq> [] \<Longrightarrow> row_value r 0 = row_category r"
  by (cases r) (simp_all add: row_value_def row_category_def)

lemma first_column_values:
  assumes "wf_sheet (header # rows)"
  shows "map (\<lambda>r. row_value r 0) rows = map row_category rows"
  using assms by (intro map_cong refl row_value_0) (auto simp: wf_sheet_Cons)

subsection \<open>Writing one cell\<close>

lemma length_set_cell: "length (set_cell ws r c v) = max (length ws) r"
  by (simp add: set_cell_def Let_def)

lemma cell_at_pad_rows: "cell_at (ws @ replicate n []) r c = cell_at ws r c"
proof (cases "1 \<le> r \<and> r \<le> length ws")
  case True
  then have "r - 1 < length ws" by arith
  then have "(ws @ replicate n []) ! (r - 1) = ws ! (r - 1)"
    by (simp add: nth_append)
  with True show ?thesis by (simp add: cell_at_def)
next
  case False
  show ?thesis
  proof (cases "1 \<le> r \<and> r \<le> length ws + n")
    case True
    with False have "\<not> r - 1 < length ws" and "r - 1 - length ws < n" by arith+
    then have "(ws @ replicate n []) ! (r - 1) = []"
      by (simp add: nth_append)
    with False show ?thesis by (auto simp: cell_at_def)
  next
    case False
    with \<open>\<not> (1 \<le> r \<and> r \<le> length ws)\<close> show ?thesis by (auto simp: cell_at_def)
  qed
qed

lemma cell_at_update_row:
  assumes "1 \<le> r" "r \<le> length ws"
  shows "cell_at (ws[r - 1 := row]) r' c' =
     (if r' = r then (if 1 \<le> c' \<and> c' \<le> length row then row ! (c' - 1) else blank)
      else cell_at ws r' c')"
proof (cases "r' = r")
  case True
  with assms show ?thesis by (simp add: cell_at_def)
next
  case False
  show ?thesis
  proof (cases "1 \<le> r'")
    case True
    with False assms have "r - 1 \<noteq> r' - 1" by arith
    then have "ws[r - 1 := row] ! (r' - 1) = ws ! (r' - 1)" by simp
    with False show ?thesis by (simp add: cell_at_def)
  next
    case False
    with \<open>r' \<noteq> r\<close> show ?thesis by (simp add: cell_at_def)
  qed
qed

lemma padded_row_nth:
  assumes "1 \<le> c"
  shows "(if 1 \<le> c' \<and> c' \<le> length ((row @ replicate (c - length row) blank)[c - 1 := v])
          then (row @ replicate (c - length row) blank)[c - 1 := v] ! (c' - 1) else blank)
       = (if c' = c then v
          else if 1 \<le> c' \<and> c' \<le> length row then row ! (c' - 1) else blank)"
proof (cases "c' = c")
  case True
  from assms have "c - 1 < length (row @ replicate (c - length row) blank)"
    and "c \<le> length (row @ replicate (c - length row) blank)" by simp_all
  with True assms show ?thesis by (simp del: length_append length_replicate)
next
  case False
  show ?thesis
  proof (cases "1 \<le> c' \<and> c' \<le> length row")
    case True
    with False assms have "c - 1 \<noteq> c' - 1" and "c' - 1 < length row" by arith+
    with True False show ?thesis by (simp add: nth_append)
  next
    case nin: False
    show ?thesis
    proof (cases "1 \<le> c' \<and> c' \<le> c")
      case True
      with False assms have ne: "c - 1 \<noteq> c' - 1" by arith
      from True nin have "\<not> c' - 1 < length row" and "c' - 1 - length row < c - length row"
        by arith+
      then have "(row @ replicate (c - length row) blank) ! (c' - 1) = blank"
        by (simp add: nth_append)
      with ne nin False show ?thesis by auto
    next
      case False
      with nin \<open>c' \<noteq> c\<close> show ?thesis by auto
    qed
  qed
qed

lemma cell_at_set_cell:
  assumes "1 \<le> r" "1 \<le> c"
  shows "cell_at (set_cell ws r c v) r' c' = (if r' = r \<and> c' = c then v else cell_at ws r' c')"
proof -
  define ws1 where "ws1 = ws @ replicate (r - length ws) []"
  define row where "row = ws1 ! (r - 1)"
  have len: "r \<le> length ws1" by (simp add: ws1_def)
  have sc: "set_cell ws r c v = ws1[r - 1 := (row @ replicate (c - length row) blank)[c - 1 := v]]"
    by (simp add: set_cell_def Let_def ws1_def row_def)
  have old: "cell_at ws1 r' c' = cell_at ws r' c'" for r' c'
    unfolding ws1_def by (rule cell_at_pad_rows)
  have rowcell: "cell_at ws1 r c' = (if 1 \<le> c' \<and> c' \<le> length row then row ! (c' - 1) else blank)"
    using assms len by (simp add: cell_at_def row_def)
  show ?thesis
    unfolding sc cell_at_update_row [OF assms(1) len] padded_row_nth [OF assms(2)]
    using rowcell old by simp
qed

subsection \<open>add_transaction\<close>

text \<open>
  Claim C5.  On an existing transactions sheet \<open>add_transaction\<close> sends one append
  request and the sheet afterwards is the sheet before followed by the one new row
  \<^verbatim>\<open>[date, category, description, amount]\<close>: the earlier rows keep their contents and
  their positions, and no other worksheet changes.
\<close>

theorem add_transaction_appends:
  assumes "worksheets ss worksheet_name = Some ws"
  shows "\<exists>ss'. add_transaction ss date category description amount worksheet_name = Inr ss'
           \<and> worksheets ss' worksheet_name = Some (ws @ [[date, category, description, amount]])
           \<and> (\<forall>n. n \<noteq> worksheet_name \<longrightarrow> worksheets ss' n = worksheets ss n)
           \<and> writes ss' = writes ss @ [AppendRow worksheet_name [date, category, description, amount]]"
  using assms by (simp add: add_transaction_def get_worksheet_def append_row_def)

text \<open>An instance on the example transaction log.\<close>

theorem add_transaction_appends_witness:
  "worksheets example_book ''Transacciones'' = Some transaction_rows
   \<and> (case add_transaction example_book (PyStr ''2024-01-09'') (PyStr ''Casa'')
              (PyStr ''Alquiler'') (PyInt 400) ''Transacciones'' of
         Inl e \<Rightarrow> None
       | Inr ss' \<Rightarrow> worksheets ss' ''Transacciones'')
       = Some (transaction_rows
               @ [[PyStr ''2024-01-09'', PyStr ''Casa'', PyStr ''Alquiler'', PyInt 400]])"
proof -
  have ws: "worksheets example_book ''Transacciones'' = Some transaction_rows"
    by (simp add: example_book_def)
  from add_transaction_appends [OF ws, of "PyStr ''2024-01-09''" "PyStr ''Casa''"
      "PyStr ''Alquiler''" "PyInt 400"]
  obtain ss' where "add_transaction example_book (PyStr ''2024-01-09'') (PyStr ''Casa'')
              (PyStr ''Alquiler'') (PyInt 400) ''Transacciones'' = Inr ss'"
    and "worksheets ss' ''Transacciones'' = Some (transaction_rows
               @ [[PyStr ''2024-01-09'', PyStr ''Casa'', PyStr ''Alquiler'', PyInt 400]])"
    by blast
  with ws show ?thesis by simp
qed

subsection \<open>update_expense and get_categories\<close>

lemma first_match_props:
  assumes "\<exists>x\<in>set xs. \<not> P x"
  shows "length (takeWhile P xs) < length xs"
    and "\<not> P (xs ! length (takeWhile P xs))"
    and "\<forall>j<length (takeWhile P xs). P (xs ! j)"
proof -
  from assms have "takeWhile P xs \<noteq> xs" by simp
  then have "length (takeWhile P xs) \<noteq> length xs"
    by (metis takeWhile_dropWhile_id append_eq_conv_conj take_all order_refl)
  with length_takeWhile_le [of P xs] show lt: "length (takeWhile P xs) < length xs" by arith
  then show "\<not> P (xs ! length (takeWhile P xs))" by (rule nth_length_takeWhile)
  show "\<forall>j<length (takeWhile P xs). P (xs ! j)"
  proof (intro allI impI)
    fix j assume j: "j < length (takeWhile P xs)"
    then have "takeWhile P xs ! j \<in> set (takeWhile P xs)" by simp
    then have "P (takeWhile P xs ! j)" by (rule set_takeWhileD [THEN conjunct2])
    with j show "P (xs ! j)" by (simp add: takeWhile_nth)
  qed
qed

lemma cell_at_first_column:
  assumes "wf_sheet (header # rows)" and "j < length rows"
  shows "cell_at (header # rows) (j + 2) 1 = row_category (rows ! j)"
proof -
  from assms have "rows ! j \<in> set rows" by simp
  with assms(1) have "length (rows ! j) = length header" and "header \<noteq> []"
    by (simp_all add: wf_sheet_Cons)
  then obtain c cs where "rows ! j = c # cs" by (cases "rows ! j") auto
  with assms(2) show ?thesis by (simp add: cell_at_def row_category_def)
qed

lemma update_expense_no_data:
  assumes "worksheets ss wn = Some ws" and "data_rows ws = []"
  shows "update_expense ss category amount wn = Inl IndexError"
  using assms by (simp add: update_expense_def get_worksheet_def DataFrame_no_data)


lemma data_rows_Cons:
  assumes "data_rows ws \<noteq> []"
  obtains header where "ws = header # data_rows ws"
  using assms by (cases ws) (simp_all add: data_rows_def)

lemma update_expense_data:
  assumes ws: "worksheets ss wn = Some ws" and wf: "wf_sheet ws" and ne: "data_rows ws \<noteq> []"
  shows "update_expense ss category amount wn =
     (if PyStr category \<in> row_category ` set (data_rows ws) then
        Inr (True,
             ss\<lparr>worksheets := (worksheets ss)
                    (wn \<mapsto> set_cell ws
                       (length (takeWhile (\<lambda>r. row_category r \<noteq> PyStr category) (data_rows ws)) + 2)
                       3 amount),
                writes := writes ss @
                    [UpdateCell wn
                       (length (takeWhile (\<lambda>r. row_category r \<noteq> PyStr category) (data_rows ws)) + 2)
                       3 amount]\<rparr>)
      else Inr (False, ss))"
proof -
  from ne obtain header where hd: "ws = header # data_rows ws" by (rule data_rows_Cons)
  define rows where "rows = data_rows ws"
  have wsr: "ws = header # rows" using hd by (simp add: rows_def)
  have wf': "wf_sheet (header # rows)" using wf wsr by simp
  have rne: "rows \<noteq> []" using ne by (simp add: rows_def)
  have df: "DataFrame (get_all_records ws) = \<lparr>columns = header, df_rows = rows\<rparr>"
    unfolding wsr using wf' rne by (rule DataFrame_data)
  from wf' obtain h hs where header: "header = h # hs"
    by (cases header) (simp_all add: wf_sheet_Cons)
  have df': "DataFrame (get_all_records ws) = \<lparr>columns = h # hs, df_rows = rows\<rparr>"
    using df by (simp add: header)
  have col: "df_getitem \<lparr>columns = h # hs, df_rows = rows\<rparr> h = Inr (map row_category rows)"
    using first_column_values [OF wf'] by (simp add: df_getitem_def)
  have any: "(True \<in> set (map (\<lambda>v. v = PyStr category) (map row_category rows)))
             = (PyStr category \<in> row_category ` set rows)"
    by (auto simp: image_iff) (metis imageI)
  have ft: "first_true (map (\<lambda>v. v = PyStr category) (map row_category rows))
            = length (takeWhile (\<lambda>r. row_category r \<noteq> PyStr category) rows)"
    by (simp add: first_true_def takeWhile_map comp_def)
  have "update_expense ss category amount wn =
     (if True \<in> set (map (\<lambda>v. v = PyStr category) (map row_category rows)) then
        (case update_cell ss wn
                (first_true (map (\<lambda>v. v = PyStr category) (map row_category rows)) + 2) 3 amount of
           Inl e \<Rightarrow> Inl e
         | Inr ss' \<Rightarrow> Inr (True, ss'))
      else Inr (False, ss))"
    unfolding update_expense_def get_worksheet_def
    by (simp only: ws df' col Let_def option.case sum.case list.case dataframe.select_convs)
  then show ?thesis
    unfolding any ft by (simp add: update_cell_def ws rows_def)
qed



text \<open>
  Claim C1, amended.  On a well-formed budget sheet with at least one data row:
  if no data row has the category in its first column, \<open>update_expense\<close> returns
  \<^verbatim>\<open>False\<close> and leaves the spreadsheet, its request log included, as it was; otherwise
  it returns \<^verbatim>\<open>True\<close> after one \<^verbatim>\<open>update_cell\<close> request, for the third column of
  the first matching row (sheet row \<open>i + 2\<close>), and every other cell of the sheet reads
  as before.
\<close>

theorem update_expense_first_match:
  assumes ws: "worksheets ss wn = Some ws" and wf: "wf_sheet ws" and ne: "data_rows ws \<noteq> []"
  shows "(PyStr category \<notin> row_category ` set (data_rows ws) \<longrightarrow>
            update_expense ss category amount wn = Inr (False, ss))
       \<and> (PyStr category \<in> row_category ` set (data_rows ws) \<longrightarrow>
            (\<exists>i ws'.
               update_expense ss category amount wn =
                 Inr (True, ss\<lparr>worksheets := (worksheets ss)(wn \<mapsto> ws'),
                               writes := writes ss @ [UpdateCell wn (i + 2) 3 amount]\<rparr>)
               \<and> i < length (data_rows ws)
               \<and> cell_at ws (i + 2) 1 = PyStr category
               \<and> (\<forall>j<i. cell_at ws (j + 2) 1 \<noteq> PyStr category)
               \<and> length ws' = length ws
               \<and> (\<forall>r c. cell_at ws' r c = (if r = i + 2 \<and> c = 3 then amount else cell_at ws r c))))"
proof (intro conjI impI)
  assume "PyStr category \<notin> row_category ` set (data_rows ws)"
  then show "update_expense ss category amount wn = Inr (False, ss)"
    by (simp add: update_expense_data [OF ws wf ne])
next
  assume mem: "PyStr category \<in> row_category ` set (data_rows ws)"
  define rows where "rows = data_rows ws"
  define i where "i = length (takeWhile (\<lambda>r. row_category r \<noteq> PyStr category) rows)"
  from ne obtain header where wsr: "ws = header # rows"
    unfolding rows_def by (rule data_rows_Cons)
  have wf': "wf_sheet (header # rows)" using wf wsr by simp
  from mem have ex: "\<exists>r\<in>set rows. \<not> row_category r \<noteq> PyStr category"
    by (auto simp: rows_def)
  note fm = first_match_props [OF ex, folded i_def]
  have ilt: "i < length rows" by (rule fm(1))
  have hit: "cell_at ws (i + 2) 1 = PyStr category"
    using fm(2) cell_at_first_column [OF wf' ilt] by (simp add: wsr)
  have before: "\<forall>j<i. cell_at ws (j + 2) 1 \<noteq> PyStr category"
  proof (intro allI impI)
    fix j assume j: "j < i"
    with ilt have "j < length rows" by simp
    from cell_at_first_column [OF wf' this] fm(3) j
    show "cell_at ws (j + 2) 1 \<noteq> PyStr category" by (simp add: wsr)
  qed
  have len: "length (set_cell ws (i + 2) 3 amount) = length ws"
    using ilt by (simp add: length_set_cell wsr)
  have frame: "\<forall>r c. cell_at (set_cell ws (i + 2) 3 amount) r c
                 = (if r = i + 2 \<and> c = 3 then amount else cell_at ws r c)"
    by (simp add: cell_at_set_cell)
  have res: "update_expense ss category amount wn =
      Inr (True, ss\<lparr>worksheets := (worksheets ss)(wn \<mapsto> set_cell ws (i + 2) 3 amount),
                    writes := writes ss @ [UpdateCell wn (i + 2) 3 amount]\<rparr>)"
    using mem by (simp add: update_expense_data [OF ws wf ne] i_def rows_def)
  from res ilt hit before len frame
  show "\<exists>i ws'.
       update_expense ss category amount wn =
         Inr (True, ss\<lparr>worksheets := (worksheets ss)(wn \<mapsto> ws'),
                       writes := writes ss @ [UpdateCell wn (i + 2) 3 amount]\<rparr>)
       \<and> i < length (data_rows ws)
       \<and> cell_at ws (i + 2) 1 = PyStr category
       \<and> (\<forall>j<i. cell_at ws (j + 2) 1 \<noteq> PyStr category)
       \<and> length ws' = length ws
       \<and> (\<forall>r c. cell_at ws' r c = (if r = i + 2 \<and> c = 3 then amount else cell_at ws r c))"
    unfolding rows_def [symmetric] by blast
qed

text \<open>Instances on the example budget: an unknown category and a known one.\<close>

theorem update_expense_first_match_witness:
  "worksheets example_book ''Presupuesto'' = Some (budget_header # budget_rows)
   \<and> wf_sheet (budget_header # budget_rows)
   \<and> data_rows (budget_header # budget_rows) \<noteq> []
   \<and> update_expense example_book ''Viajes'' (PyFloat (Finite 75)) ''Presupuesto''
       = Inr (False, example_book)
   \<and> map_sum id fst (update_expense example_book ''Casa'' (PyFloat (Finite 75)) ''Presupuesto'')
       = Inr True"
proof -
  have ws: "worksheets example_book ''Presupuesto'' = Some (budget_header # budget_rows)"
    by (simp add: example_book_def)
  have wf: "wf_sheet (budget_header # budget_rows)"
    by (simp add: wf_sheet_def budget_header_def budget_rows_def)
  have ne: "data_rows (budget_header # budget_rows) \<noteq> []"
    by (simp add: data_rows_def budget_rows_def)
  have no: "PyStr ''Viajes'' \<notin> row_category ` set (data_rows (budget_header # budget_rows))"
    by (simp add: data_rows_def budget_rows_def row_category_def)
  have yes: "PyStr ''Casa'' \<in> row_category ` set (data_rows (budget_header # budget_rows))"
    by (simp add: data_rows_def budget_rows_def row_category_def)
  from update_expense_first_match [OF ws wf ne, of "''Viajes''" "PyFloat (Finite 75)"] no
  have a: "update_expense example_book ''Viajes'' (PyFloat (Finite 75)) ''Presupuesto''
             = Inr (False, example_book)"
    by blast
  from update_expense_first_match [OF ws wf ne, of "''Casa''" "PyFloat (Finite 75)"] yes
  obtain s' where "update_expense example_book ''Casa'' (PyFloat (Finite 75)) ''Presupuesto''
             = Inr (True, s')"
    by blast
  then have b: "map_sum id fst
      (update_expense example_book ''Casa'' (PyFloat (Finite 75)) ''Presupuesto'') = Inr True"
    by simp
  from ws wf ne a b show ?thesis by blast
qed

text \<open>
  Claim C1 as stated fails on a budget sheet that has only its header row: no data row
  matches, yet the call raises \<^verbatim>\<open>IndexError\<close> instead of returning \<^verbatim>\<open>False\<close>.
\<close>

theorem update_expense_header_only_counterexample:
  "data_rows [budget_header] = []
   \<and> worksheets header_only_book ''Presupuesto'' = Some [budget_header]
   \<and> update_expense header_only_book ''Comida'' (PyFloat (Finite 75)) ''Presupuesto''
       = Inl IndexError
   \<and> update_expense header_only_book ''Comida'' (PyFloat (Finite 75)) ''Presupuesto''
       \<noteq> Inr (False, header_only_book)"
proof -
  have d: "data_rows [budget_header] = []" by (simp add: data_rows_def)
  have w: "worksheets header_only_book ''Presupuesto'' = Some [budget_header]"
    by (simp add: header_only_book_def)
  have "update_expense header_only_book ''Comida'' (PyFloat (Finite 75)) ''Presupuesto''
          = Inl IndexError"
    using w d by (rule update_expense_no_data)
  with d w show ?thesis by simp
qed






end
